theory Spec2Isabelle
  imports
    Main
    "HOL-Library.Char_ord"
    "HOL-Library.List_Lexorder"
    "HOL-Library.Product_Lexorder"
    "HOL-Library.Option_ord"
begin

section \<open>The upstream payload\<close>

text \<open>
  The decoded JSON of one reply of the route catalogue, as
  \<^verbatim>\<open>scripts/smilebus_data_populate.py\<close> reads it: a \<^verbatim>\<open>result\<close> string and a \<^verbatim>\<open>data\<close>
  list of destination cities, each with its list of stops. Identifiers, \<^verbatim>\<open>order\<close> and the
  0/1 flags are JSON integers; the text fields may be JSON \<^verbatim>\<open>null\<close> (\<open>None\<close>). The stop's
  keys \<^verbatim>\<open>id\<close>, \<^verbatim>\<open>title\<close>, \<^verbatim>\<open>gps\<close>, \<^verbatim>\<open>photo_url\<close>, \<^verbatim>\<open>order\<close>, \<^verbatim>\<open>is_default\<close> carry the prefix
  \<open>stop_\<close> here, and the city's key \<^verbatim>\<open>stops\<close> is \<open>city_stops\<close>. Replies that are not of
  this shape (a missing key, an undecodable body) are outside this input type.
\<close>

record stop_json =
  stop_id :: int
  stop_title :: "string option"
  stop_gps :: "string option"
  stop_photo_url :: "string option"
  stop_order :: int
  stop_is_default :: int

record city_json =
  id_city :: int
  city_name :: "string option"
  city_slug :: "string option"
  is_waypoint :: int
  is_top :: int
  city_stops :: "stop_json list"

record api_response =
  resp_result :: string
  resp_data :: "city_json list"

text \<open>The dictionary \<^verbatim>\<open>{'city_id': city_id, 'data': data['data']}\<close> that a fetch returns.\<close>

record city_data =
  city_id :: int
  data :: "city_json list"

text \<open>Python's \<^verbatim>\<open>bool(x)\<close> on an integer.\<close>

definition py_bool :: "int \<Rightarrow> bool" where
  "py_bool x = (x \<noteq> 0)"

section \<open>The store\<close>

text \<open>
  The three tables of \<^verbatim>\<open>create_database\<close>. \<^verbatim>\<open>cities\<close> and \<^verbatim>\<open>stops\<close> have
  \<^verbatim>\<open>id INTEGER PRIMARY KEY\<close>, so each is a map from the id to the other columns.
  \<^verbatim>\<open>routes\<close> has \<^verbatim>\<open>id INTEGER PRIMARY KEY AUTOINCREMENT\<close> and no other uniqueness
  constraint: it is the list of its rows in insertion order, and \<open>seq\<close> is the largest id
  handed out so far (SQLite's \<^verbatim>\<open>sqlite_sequence\<close> entry of the table). Every other column
  is nullable unless declared \<^verbatim>\<open>NOT NULL\<close>.
\<close>

record city_row =
  cities_name :: string
  cities_slug :: "string option"
  cities_is_waypoint :: bool
  cities_is_top :: bool

record stop_row =
  stops_city_id :: "int option"
  stops_title :: string
  stops_gps :: "string option"
  stops_photo_url :: "string option"
  stops_order_num :: int
  stops_is_default :: bool

record route_row =
  routes_id :: int
  from_city_id :: "int option"
  to_city_id :: "int option"
  from_stop_id :: "int option"
  to_stop_id :: "int option"

record db =
  tables :: "string set"
  indexes :: "string set"
  cities :: "int \<rightharpoonup> city_row"
  stops :: "int \<rightharpoonup> stop_row"
  routes :: "route_row list"
  seq :: int

text \<open>
  A connection carries the setting of \<^verbatim>\<open>PRAGMA foreign_keys\<close>, which SQLite keeps per
  connection and which is off on a new connection.
\<close>

record conn =
  foreign_keys :: bool

definition sqlite3_connect :: conn where
  "sqlite3_connect = \<lparr>foreign_keys = False\<rparr>"

datatype error = IntegrityError string

section \<open>The schema initializer\<close>

text \<open>
  \<^verbatim>\<open>CREATE TABLE IF NOT EXISTS\<close> and \<^verbatim>\<open>CREATE INDEX IF NOT EXISTS\<close> look at the name only:
  an object of that name is left as it is, otherwise an empty one is created.
\<close>

definition create_cities :: "db \<Rightarrow> db" where
  "create_cities d =
     (if ''cities'' \<in> tables d then d
      else d\<lparr>tables := insert ''cities'' (tables d), cities := Map.empty\<rparr>)"

definition create_stops :: "db \<Rightarrow> db" where
  "create_stops d =
     (if ''stops'' \<in> tables d then d
      else d\<lparr>tables := insert ''stops'' (tables d), stops := Map.empty\<rparr>)"

definition create_routes :: "db \<Rightarrow> db" where
  "create_routes d =
     (if ''routes'' \<in> tables d then d
      else d\<lparr>tables := insert ''routes'' (tables d), routes := [], seq := 0\<rparr>)"

definition create_index :: "string \<Rightarrow> db \<Rightarrow> db" where
  "create_index n d =
     (if n \<in> indexes d then d else d\<lparr>indexes := insert n (indexes d)\<rparr>)"

text \<open>
  \<^verbatim>\<open>create_database\<close>: the script runs on a connection of its own, on which it turns
  \<^verbatim>\<open>foreign_keys\<close> on; the connection is closed at the end, so only the store is returned.
\<close>

definition create_database :: "db \<Rightarrow> db" where
  "create_database d =
     (let c = sqlite3_connect\<lparr>foreign_keys := True\<rparr>
      in create_index ''idx_routes_from_to''
          (create_index ''idx_stops_city_id''
            (create_index ''idx_cities_slug''
              (create_routes (create_stops (create_cities d))))))"

section \<open>The three statements of the writer\<close>

text \<open>
  A statement either fails as a whole (\<open>Inl\<close>, the store unchanged) or yields the new
  store. \<^verbatim>\<open>INSERT OR REPLACE\<close> resolves a clash on the primary key by replacing the row; a
  \<^verbatim>\<open>NULL\<close> in a \<^verbatim>\<open>NOT NULL\<close> column without default aborts the statement.
\<close>

definition references :: "(int \<rightharpoonup> 'a) \<Rightarrow> int option \<Rightarrow> bool" where
  "references t k = (case k of None \<Rightarrow> True | Some i \<Rightarrow> t i \<noteq> None)"

definition insert_or_replace_city ::
  "conn \<Rightarrow> int \<Rightarrow> string option \<Rightarrow> string option \<Rightarrow> bool \<Rightarrow> bool \<Rightarrow> db \<Rightarrow> error + db" where
  "insert_or_replace_city c i nm sl wp tp d =
     (case nm of
        None \<Rightarrow> Inl (IntegrityError ''NOT NULL constraint failed: cities.name'')
      | Some n \<Rightarrow>
          Inr (d\<lparr>cities := (cities d)(i \<mapsto>
                 \<lparr>cities_name = n, cities_slug = sl,
                  cities_is_waypoint = wp, cities_is_top = tp\<rparr>)\<rparr>))"

definition insert_or_replace_stop ::
  "conn \<Rightarrow> int \<Rightarrow> int option \<Rightarrow> string option \<Rightarrow> string option \<Rightarrow> string option
     \<Rightarrow> int \<Rightarrow> bool \<Rightarrow> db \<Rightarrow> error + db" where
  "insert_or_replace_stop c i cid ttl g p ord dflt d =
     (case ttl of
        None \<Rightarrow> Inl (IntegrityError ''NOT NULL constraint failed: stops.title'')
      | Some t \<Rightarrow>
          if foreign_keys c \<and> \<not> references (cities d) cid
          then Inl (IntegrityError ''FOREIGN KEY constraint failed'')
          else Inr (d\<lparr>stops := (stops d)(i \<mapsto>
                 \<lparr>stops_city_id = cid, stops_title = t, stops_gps = g,
                  stops_photo_url = p, stops_order_num = ord,
                  stops_is_default = dflt\<rparr>)\<rparr>))"

text \<open>
  \<^verbatim>\<open>AUTOINCREMENT\<close>: the new id is one more than the largest id the table has ever held.
\<close>

definition next_route_id :: "db \<Rightarrow> int" where
  "next_route_id d = max (seq d) (fold max (map routes_id (routes d)) 0) + 1"

text \<open>
  \<^verbatim>\<open>INSERT OR IGNORE INTO routes (from_city_id, to_city_id, from_stop_id, to_stop_id)\<close>:
  the statement gives no id, so the primary key never clashes, and the table declares no
  \<^verbatim>\<open>UNIQUE\<close> or \<^verbatim>\<open>NOT NULL\<close> column: there is nothing for \<^verbatim>\<open>OR IGNORE\<close> to ignore, and the
  row is appended. A violated foreign key, on a connection that enforces them, is not
  covered by \<^verbatim>\<open>OR IGNORE\<close> and aborts the statement.
\<close>

definition insert_or_ignore_route ::
  "conn \<Rightarrow> int option \<Rightarrow> int option \<Rightarrow> int option \<Rightarrow> int option \<Rightarrow> db \<Rightarrow> error + db" where
  "insert_or_ignore_route c fc tc fs ts d =
     (if foreign_keys c \<and>
         \<not> (references (cities d) fc \<and> references (cities d) tc \<and>
            references (stops d) fs \<and> references (stops d) ts)
      then Inl (IntegrityError ''FOREIGN KEY constraint failed'')
      else Inr (d\<lparr>routes := routes d @
                   [\<lparr>routes_id = next_route_id d, from_city_id = fc, to_city_id = tc,
                     from_stop_id = fs, to_stop_id = ts\<rparr>],
                 seq := next_route_id d\<rparr>))"

section \<open>The normalizer/writer\<close>

text \<open>
  \<^verbatim>\<open>process_city_data\<close>. An exception leaves the loops at once; what the earlier statements
  wrote stays in the store (nothing rolls back), so each loop returns the error, if any,
  together with the store as it stands. \<open>process_city\<close> is the body of the outer loop:
  the city's row, then its stops, then its routes.
\<close>

fun upsert_stops :: "conn \<Rightarrow> int \<Rightarrow> stop_json list \<Rightarrow> db \<Rightarrow> error option \<times> db" where
  "upsert_stops c cid [] d = (None, d)"
| "upsert_stops c cid (s # ss) d =
     (case insert_or_replace_stop c (stop_id s) (Some cid) (stop_title s) (stop_gps s)
             (stop_photo_url s) (stop_order s) (py_bool (stop_is_default s)) d of
        Inl e \<Rightarrow> (Some e, d)
      | Inr d' \<Rightarrow> upsert_stops c cid ss d')"

fun insert_routes :: "conn \<Rightarrow> int \<Rightarrow> int \<Rightarrow> stop_json list \<Rightarrow> db \<Rightarrow> error option \<times> db" where
  "insert_routes c origin cid [] d = (None, d)"
| "insert_routes c origin cid (s # ss) d =
     (case insert_or_ignore_route c (Some origin) (Some cid) None (Some (stop_id s)) d of
        Inl e \<Rightarrow> (Some e, d)
      | Inr d' \<Rightarrow> insert_routes c origin cid ss d')"

definition process_city :: "conn \<Rightarrow> int \<Rightarrow> city_json \<Rightarrow> db \<Rightarrow> error option \<times> db" where
  "process_city c origin city d =
     (case insert_or_replace_city c (id_city city) (city_name city) (city_slug city)
             (py_bool (is_waypoint city)) (py_bool (is_top city)) d of
        Inl e \<Rightarrow> (Some e, d)
      | Inr d1 \<Rightarrow>
          (case upsert_stops c (id_city city) (city_stops city) d1 of
             (Some e, d2) \<Rightarrow> (Some e, d2)
           | (None, d2) \<Rightarrow> insert_routes c origin (id_city city) (city_stops city) d2))"

fun process_cities :: "conn \<Rightarrow> int \<Rightarrow> city_json list \<Rightarrow> db \<Rightarrow> error option \<times> db" where
  "process_cities c origin [] d = (None, d)"
| "process_cities c origin (city # rest) d =
     (case process_city c origin city d of
        (Some e, d') \<Rightarrow> (Some e, d')
      | (None, d') \<Rightarrow> process_cities c origin rest d')"

definition process_city_data :: "conn \<Rightarrow> city_data \<Rightarrow> db \<Rightarrow> error option \<times> db" where
  "process_city_data c cd d = process_cities c (city_id cd) (data cd) d"

section \<open>Fetching\<close>

text \<open>
  What the network does with one request: \<^verbatim>\<open>requests.get\<close> raises (a timeout, a failed
  connection) or returns a response with a status code and a body, taken here as already
  decoded. \<^verbatim>\<open>raise_for_status\<close> raises \<^verbatim>\<open>HTTPError\<close> for the client and server error codes,
  400 to 599. All three are \<^verbatim>\<open>RequestException\<close>s.
\<close>

datatype transport = Timeout | ConnectionError | Response int api_response

datatype request_exception = ReadTimeout | ConnectionFailed | HTTPError int

datatype log_entry =
    Error_fetching int request_exception
  | Info_processed int
  | Error_processing int error
  | Info_completed

definition requests_get :: "transport \<Rightarrow> request_exception + int \<times> api_response" where
  "requests_get t =
     (case t of
        Timeout \<Rightarrow> Inl ReadTimeout
      | ConnectionError \<Rightarrow> Inl ConnectionFailed
      | Response st body \<Rightarrow> Inr (st, body))"

definition raise_for_status :: "int \<Rightarrow> request_exception + unit" where
  "raise_for_status st = (if 400 \<le> st \<and> st < 600 then Inl (HTTPError st) else Inr ())"

text \<open>
  \<^verbatim>\<open>fetch_city_data\<close> returns the outcome (\<open>None\<close> is Python's \<^verbatim>\<open>None\<close>, the skip) and
  what it logged.
\<close>

definition fetch_city_data :: "int \<Rightarrow> transport \<Rightarrow> city_data option \<times> log_entry list" where
  "fetch_city_data cid t =
     (case requests_get t of
        Inl e \<Rightarrow> (None, [Error_fetching cid e])
      | Inr (st, body) \<Rightarrow>
          (case raise_for_status st of
             Inl e \<Rightarrow> (None, [Error_fetching cid e])
           | Inr _ \<Rightarrow>
               if resp_result body = ''success'' \<and> resp_data body \<noteq> []
               then (Some \<lparr>city_id = cid, data = resp_data body\<rparr>, [])
               else (None, [])))"

section \<open>The coordinator\<close>

text \<open>
  \<^verbatim>\<open>populate_database\<close>. The futures are consumed one after the other in the order in
  which they complete (\<open>order\<close>, in the script a permutation of the identifiers 1 to 1000);
  \<open>net\<close> is the network's answer for each identifier. Each outcome is written on the one
  connection opened here, on which the script sets only \<^verbatim>\<open>journal_mode\<close>. The store returned
  is the one the final \<^verbatim>\<open>commit\<close> makes durable; the log lists a task's entries when its
  future is consumed.
\<close>

fun consume ::
  "conn \<Rightarrow> (int \<Rightarrow> transport) \<Rightarrow> int list \<Rightarrow> db \<times> log_entry list \<Rightarrow> db \<times> log_entry list" where
  "consume c net [] st = st"
| "consume c net (cid # rest) (d, lg) =
     (case fetch_city_data cid (net cid) of
        (None, fl) \<Rightarrow> consume c net rest (d, lg @ fl)
      | (Some cd, fl) \<Rightarrow>
          (case process_city_data c cd d of
             (None, d') \<Rightarrow> consume c net rest (d', lg @ fl @ [Info_processed cid])
           | (Some e, d') \<Rightarrow> consume c net rest (d', lg @ fl @ [Error_processing cid e])))"

definition populate_database :: "(int \<Rightarrow> transport) \<Rightarrow> int list \<Rightarrow> db \<Rightarrow> db \<times> log_entry list" where
  "populate_database net order d =
     (case consume sqlite3_connect net order (d, []) of
        (d', lg) \<Rightarrow> (d', lg @ [Info_completed]))"

section \<open>The summary exporter\<close>

text \<open>
  The query of \<^verbatim>\<open>export_route_summary\<close>. A join on a \<^verbatim>\<open>NULL\<close> key matches no row.
\<close>

definition lookup :: "(int \<rightharpoonup> 'a) \<Rightarrow> int option \<Rightarrow> 'a option" where
  "lookup t k = (case k of None \<Rightarrow> None | Some i \<Rightarrow> t i)"

text \<open>
  One row of the result: \<^verbatim>\<open>r.id, c1.name, c2.name, s1.title, s2.title\<close>. The three inner
  joins drop the route when there is no partner; the \<^verbatim>\<open>LEFT JOIN\<close> on the origin stop keeps
  it and yields \<^verbatim>\<open>NULL\<close> for \<^verbatim>\<open>s1.title\<close>.
\<close>

type_synonym sql_row = "int \<times> string \<times> string \<times> string option \<times> string"

definition join_route :: "db \<Rightarrow> route_row \<Rightarrow> sql_row option" where
  "join_route d r =
     (case lookup (cities d) (from_city_id r) of
        None \<Rightarrow> None
      | Some c1 \<Rightarrow>
          (case lookup (cities d) (to_city_id r) of
             None \<Rightarrow> None
           | Some c2 \<Rightarrow>
               (case lookup (stops d) (to_stop_id r) of
                  None \<Rightarrow> None
                | Some s2 \<Rightarrow>
                    Some (routes_id r, cities_name c1, cities_name c2,
                          map_option stops_title (lookup (stops d) (from_stop_id r)),
                          stops_title s2))))"

text \<open>
  \<^verbatim>\<open>ORDER BY c1.name, c2.name, s1.title, s2.title\<close>: ascending, \<^verbatim>\<open>NULL\<close> first, text compared
  byte by byte. SQLite leaves the order of rows with equal keys open; here they stay in the
  order of the \<^verbatim>\<open>routes\<close> table.
\<close>

definition order_by :: "sql_row \<Rightarrow> string \<times> string \<times> string option \<times> string" where
  "order_by row = (case row of (i, c1, c2, s1, s2) \<Rightarrow> (c1, c2, s1, s2))"

definition select_routes :: "db \<Rightarrow> sql_row list" where
  "select_routes d = sort_key order_by (List.map_filter (join_route d) (routes d))"

record summary =
  summary_id :: int
  from_city :: string
  to_city :: string
  from_stop :: string
  to_stop :: string

text \<open>Python's \<^verbatim>\<open>row[3] or 'Any'\<close>: \<^verbatim>\<open>None\<close> and the empty string are both falsy.\<close>

definition or_any :: "string option \<Rightarrow> string" where
  "or_any t = (case t of None \<Rightarrow> ''Any'' | Some x \<Rightarrow> if x = [] then ''Any'' else x)"

definition render :: "sql_row \<Rightarrow> summary" where
  "render row =
     (case row of (i, c1, c2, s1, s2) \<Rightarrow>
        \<lparr>summary_id = i, from_city = c1, to_city = c2, from_stop = or_any s1, to_stop = s2\<rparr>)"

text \<open>The list that \<^verbatim>\<open>export_route_summary\<close> dumps to the output file.\<close>

definition export_route_summary :: "db \<Rightarrow> summary list" where
  "export_route_summary d = map render (select_routes d)"

section \<open>The logical key of a route\<close>

text \<open>The four columns by which the specification identifies a route.\<close>

definition route_key :: "route_row \<Rightarrow> int option \<times> int option \<times> int option \<times> int option" where
  "route_key r = (from_city_id r, to_city_id r, from_stop_id r, to_stop_id r)"

section \<open>Concrete inputs\<close>

text \<open>A store file before the first run, and the store the initializer makes of it.\<close>

definition new_file :: db where
  "new_file = \<lparr>tables = {}, indexes = {}, cities = Map.empty, stops = Map.empty,
                routes = [], seq = 0\<rparr>"

definition fresh_db :: db where
  "fresh_db = create_database new_file"

text \<open>
  The reply of the specification's scenario: city 5 answers with the destination Riga and
  its stop Central; every other identifier answers with an empty result.
\<close>

definition central :: stop_json where
  "central = \<lparr>stop_id = 100, stop_title = Some ''Central'', stop_gps = Some ''56.9,24.1'',
               stop_photo_url = None, stop_order = 1, stop_is_default = 1\<rparr>"

definition riga :: city_json where
  "riga = \<lparr>id_city = 9, city_name = Some ''Riga'', city_slug = Some ''riga'',
            is_waypoint = 0, is_top = 1, city_stops = [central]\<rparr>"

definition no_result :: api_response where
  "no_result = \<lparr>resp_result = ''error'', resp_data = []\<rparr>"

definition riga_net :: "int \<Rightarrow> transport" where
  "riga_net i =
     (if i = 5 then Response 200 \<lparr>resp_result = ''success'', resp_data = [riga]\<rparr>
      else Response 200 no_result)"





text \<open>The store after the scenario's outcome, and after the outcome of city 7 as well.\<close>

definition riga_db :: db where
  "riga_db = fresh_db\<lparr>
     cities := [9 \<mapsto> \<lparr>cities_name = ''Riga'', cities_slug = Some ''riga'',
                       cities_is_waypoint = False, cities_is_top = True\<rparr>],
     stops := [100 \<mapsto> \<lparr>stops_city_id = Some 9, stops_title = ''Central'',
                        stops_gps = Some ''56.9,24.1'', stops_photo_url = None,
                        stops_order_num = 1, stops_is_default = True\<rparr>],
     routes := [\<lparr>routes_id = 1, from_city_id = Some 5, to_city_id = Some 9,
                 from_stop_id = None, to_stop_id = Some 100\<rparr>],
     seq := 1\<rparr>"


text \<open>The store after the scenario's outcome has been written a second time.\<close>

definition riga_twice_db :: db where
  "riga_twice_db = riga_db\<lparr>
     routes := [\<lparr>routes_id = 1, from_city_id = Some 5, to_city_id = Some 9,
                 from_stop_id = None, to_stop_id = Some 100\<rparr>,
                \<lparr>routes_id = 2, from_city_id = Some 5, to_city_id = Some 9,
                 from_stop_id = None, to_stop_id = Some 100\<rparr>],
     seq := 2\<rparr>"

text \<open>
  Two cities that name each other: city 5 answers with Riga as above, and city 9 answers
  with the destination Tallinn, which has the identifier 5; the store after both outcomes.
\<close>

definition harbour :: stop_json where
  "harbour = \<lparr>stop_id = 300, stop_title = Some ''Harbour'', stop_gps = None,
               stop_photo_url = None, stop_order = 1, stop_is_default = 1\<rparr>"

definition tallinn :: city_json where
  "tallinn = \<lparr>id_city = 5, city_name = Some ''Tallinn'', city_slug = Some ''tallinn'',
               is_waypoint = 0, is_top = 1, city_stops = [harbour]\<rparr>"

definition two_way_net :: "int \<Rightarrow> transport" where
  "two_way_net i =
     (if i = 9 then Response 200 \<lparr>resp_result = ''success'', resp_data = [tallinn]\<rparr>
      else riga_net i)"

definition two_way_db :: db where
  "two_way_db = riga_db\<lparr>
     cities := (cities riga_db)(5 \<mapsto> \<lparr>cities_name = ''Tallinn'', cities_slug = Some ''tallinn'',
                       cities_is_waypoint = False, cities_is_top = True\<rparr>),
     stops := (stops riga_db)(300 \<mapsto> \<lparr>stops_city_id = Some 5, stops_title = ''Harbour'',
                        stops_gps = None, stops_photo_url = None,
                        stops_order_num = 1, stops_is_default = True\<rparr>),
     routes := routes riga_db @
               [\<lparr>routes_id = 2, from_city_id = Some 9, to_city_id = Some 5,
                 from_stop_id = None, to_stop_id = Some 300\<rparr>],
     seq := 2\<rparr>"

text \<open>
  A store with two cities, two stops (one with an empty title) and three routes: one
  written by the writer, one with an origin stop, one whose origin city has no row.
\<close>

definition sample_db :: db where
  "sample_db = fresh_db\<lparr>
     cities := [5 \<mapsto> \<lparr>cities_name = ''Minsk'', cities_slug = None,
                       cities_is_waypoint = False, cities_is_top = True\<rparr>,
                9 \<mapsto> \<lparr>cities_name = ''Riga'', cities_slug = Some ''riga'',
                       cities_is_waypoint = False, cities_is_top = True\<rparr>],
     stops := [100 \<mapsto> \<lparr>stops_city_id = Some 9, stops_title = ''Central'', stops_gps = None,
                        stops_photo_url = None, stops_order_num = 1, stops_is_default = True\<rparr>,
               101 \<mapsto> \<lparr>stops_city_id = Some 5, stops_title = [], stops_gps = None,
                        stops_photo_url = None, stops_order_num = 1, stops_is_default = True\<rparr>],
     routes := [\<lparr>routes_id = 1, from_city_id = Some 9, to_city_id = Some 9,
                 from_stop_id = Some 101, to_stop_id = Some 100\<rparr>,
                \<lparr>routes_id = 2, from_city_id = Some 5, to_city_id = Some 9,
                 from_stop_id = None, to_stop_id = Some 100\<rparr>,
                \<lparr>routes_id = 3, from_city_id = Some 77, to_city_id = Some 9,
                 from_stop_id = None, to_stop_id = Some 100\<rparr>],
     seq := 3\<rparr>"

section \<open>Properties of the schema initializer\<close>

lemma tables_create_cities: "tables (create_cities d) = insert ''cities'' (tables d)"
  by (auto simp: create_cities_def)
lemma tables_create_stops: "tables (create_stops d) = insert ''stops'' (tables d)"
  by (auto simp: create_stops_def)
lemma tables_create_routes: "tables (create_routes d) = insert ''routes'' (tables d)"
  by (auto simp: create_routes_def)
lemma tables_create_index: "tables (create_index n d) = tables d"
  by (simp add: create_index_def)
lemma indexes_create_cities: "indexes (create_cities d) = indexes d"
  by (simp add: create_cities_def)
lemma indexes_create_stops: "indexes (create_stops d) = indexes d"
  by (simp add: create_stops_def)
lemma indexes_create_routes: "indexes (create_routes d) = indexes d"
  by (simp add: create_routes_def)
lemma indexes_create_index: "indexes (create_index n d) = insert n (indexes d)"
  by (auto simp: create_index_def)

lemmas schema_simps = tables_create_cities tables_create_stops tables_create_routes tables_create_index
  indexes_create_cities indexes_create_stops indexes_create_routes indexes_create_index

lemma create_cities_fix: "''cities'' \<in> tables d \<Longrightarrow> create_cities d = d"
  by (simp add: create_cities_def)
lemma create_stops_fix: "''stops'' \<in> tables d \<Longrightarrow> create_stops d = d"
  by (simp add: create_stops_def)
lemma create_routes_fix: "''routes'' \<in> tables d \<Longrightarrow> create_routes d = d"
  by (simp add: create_routes_def)
lemma create_index_fix: "n \<in> indexes d \<Longrightarrow> create_index n d = d"
  by (simp add: create_index_def)

lemma tables_create_database:
  "tables (create_database d) = {''cities'', ''stops'', ''routes''} \<union> tables d"
  by (simp add: create_database_def schema_simps insert_commute)

lemma indexes_create_database:
  "indexes (create_database d) = {''idx_cities_slug'', ''idx_stops_city_id'', ''idx_routes_from_to''} \<union> indexes d"
  by (simp add: create_database_def schema_simps insert_commute)

lemma create_database_fix:
  assumes "{''cities'', ''stops'', ''routes''} \<subseteq> tables d"
    and "{''idx_cities_slug'', ''idx_stops_city_id'', ''idx_routes_from_to''} \<subseteq> indexes d"
  shows "create_database d = d"
  using assms
  by (simp add: create_database_def create_cities_fix create_stops_fix create_routes_fix create_index_fix)

lemma create_database_twice: "create_database (create_database d) = create_database d"
  by (rule create_database_fix) (simp_all add: tables_create_database indexes_create_database)

lemma create_database_rows:
  assumes "{''cities'', ''stops'', ''routes''} \<subseteq> tables d"
  shows "cities (create_database d) = cities d" and "stops (create_database d) = stops d"
    and "routes (create_database d) = routes d" and "seq (create_database d) = seq d"
  using assms
  by (simp_all add: create_database_def create_cities_fix create_stops_fix create_routes_fix
        create_index_def)

text \<open>
  C8. Running the schema initializer any number of times in succession leaves the store as
  one run leaves it: from the second invocation on nothing changes, and the three tables and
  the three indexes exist.
\<close>

theorem create_database_idempotent:
  "(create_database ^^ Suc n) d = create_database d \<and>
   create_database (create_database d) = create_database d \<and>
   {''cities'', ''stops'', ''routes''} \<subseteq> tables (create_database d) \<and>
   {''idx_cities_slug'', ''idx_stops_city_id'', ''idx_routes_from_to''}
     \<subseteq> indexes (create_database d)"
proof -
  have "(create_database ^^ Suc n) d = create_database d"
    by (induction n) (simp_all add: create_database_twice)
  then show ?thesis
    by (simp add: create_database_twice tables_create_database indexes_create_database)
qed

section \<open>Properties of the writer\<close>

subsection \<open>What one statement changes\<close>

lemma insert_or_replace_city_Inr:
  assumes "insert_or_replace_city c i nm sl wp tp d = Inr d'"
  shows "\<exists>row. d' = d\<lparr>cities := (cities d)(i \<mapsto> row)\<rparr>"
  using assms by (auto simp: insert_or_replace_city_def split: option.splits)

lemma insert_or_replace_stop_Inr:
  assumes "insert_or_replace_stop c i cid ttl g p ord dflt d = Inr d'"
  shows "\<exists>row. stops_city_id row = cid \<and> d' = d\<lparr>stops := (stops d)(i \<mapsto> row)\<rparr>"
proof -
  from assms obtain t where
    "d' = d\<lparr>stops := (stops d)(i \<mapsto>
            \<lparr>stops_city_id = cid, stops_title = t, stops_gps = g, stops_photo_url = p,
             stops_order_num = ord, stops_is_default = dflt\<rparr>)\<rparr>"
    by (auto simp: insert_or_replace_stop_def split: option.splits if_splits)
  then show ?thesis
    by (intro exI[of _ "\<lparr>stops_city_id = cid, stops_title = t, stops_gps = g,
          stops_photo_url = p, stops_order_num = ord, stops_is_default = dflt\<rparr>"]) simp
qed

lemma insert_or_ignore_route_Inr:
  assumes "insert_or_ignore_route c fc tc fs ts d = Inr d'"
  shows "\<exists>row n. route_key row = (fc, tc, fs, ts) \<and> d' = d\<lparr>routes := routes d @ [row], seq := n\<rparr>"
proof -
  from assms have
    "d' = d\<lparr>routes := routes d @
            [\<lparr>routes_id = next_route_id d, from_city_id = fc, to_city_id = tc,
              from_stop_id = fs, to_stop_id = ts\<rparr>],
          seq := next_route_id d\<rparr>"
    by (auto simp: insert_or_ignore_route_def split: if_splits)
  then show ?thesis
    by (intro exI[of _ "\<lparr>routes_id = next_route_id d, from_city_id = fc, to_city_id = tc,
              from_stop_id = fs, to_stop_id = ts\<rparr>"] exI[of _ "next_route_id d"])
       (simp add: route_key_def)
qed

subsection \<open>The loop over a city's stops\<close>

lemma upsert_stops_frame:
  "upsert_stops c cid ss d = (err, d') \<Longrightarrow>
     cities d' = cities d \<and> routes d' = routes d \<and> seq d' = seq d \<and>
     tables d' = tables d \<and> indexes d' = indexes d"
proof (induction ss arbitrary: d)
  case Nil
  then show ?case by simp
next
  case (Cons s ss)
  then show ?case
    by (auto split: sum.splits dest!: insert_or_replace_stop_Inr)
qed

lemma upsert_stops_changed:
  "upsert_stops c cid ss d = (err, d') \<Longrightarrow> stops d' k \<noteq> stops d k \<Longrightarrow>
     (\<exists>s\<in>set ss. stop_id s = k) \<and> (\<exists>row. stops d' k = Some row \<and> stops_city_id row = Some cid)"
proof (induction ss arbitrary: d)
  case Nil
  then show ?case by simp
next
  case (Cons s ss)
  show ?case
  proof (cases "insert_or_replace_stop c (stop_id s) (Some cid) (stop_title s) (stop_gps s)
             (stop_photo_url s) (stop_order s) (py_bool (stop_is_default s)) d")
    case (Inl e)
    with Cons.prems show ?thesis by simp
  next
    case (Inr d1)
    then obtain row where row: "stops_city_id row = Some cid"
      and d1: "d1 = d\<lparr>stops := (stops d)(stop_id s \<mapsto> row)\<rparr>"
      using insert_or_replace_stop_Inr by blast
    from Inr Cons.prems have rest: "upsert_stops c cid ss d1 = (err, d')" by simp
    show ?thesis
    proof (cases "stops d' k = stops d1 k")
      case True
      with Cons.prems(2) d1 row show ?thesis by (auto split: if_splits)
    next
      case False
      from Cons.IH[OF rest False] show ?thesis by auto
    qed
  qed
qed

lemma upsert_stops_written:
  "upsert_stops c cid ss d = (None, d') \<Longrightarrow> s \<in> set ss \<Longrightarrow>
     \<exists>row. stops d' (stop_id s) = Some row \<and> stops_city_id row = Some cid"
proof (induction ss arbitrary: d)
  case Nil
  then show ?case by simp
next
  case (Cons a ss)
  from Cons.prems(1) obtain d1 where
    a: "insert_or_replace_stop c (stop_id a) (Some cid) (stop_title a) (stop_gps a)
          (stop_photo_url a) (stop_order a) (py_bool (stop_is_default a)) d = Inr d1"
    and rest: "upsert_stops c cid ss d1 = (None, d')"
    by (auto split: sum.splits)
  show ?case
  proof (cases "s \<in> set ss")
    case True
    then show ?thesis using Cons.IH[OF rest] by blast
  next
    case False
    with Cons.prems(2) have sa: "s = a" by simp
    from a obtain row where row: "stops_city_id row = Some cid"
      and d1: "d1 = d\<lparr>stops := (stops d)(stop_id a \<mapsto> row)\<rparr>"
      using insert_or_replace_stop_Inr by blast
    show ?thesis
    proof (cases "stops d' (stop_id a) = stops d1 (stop_id a)")
      case True
      with d1 row sa show ?thesis by simp
    next
      case False
      from upsert_stops_changed[OF rest False] sa show ?thesis by blast
    qed
  qed
qed

lemma upsert_stops_dom:
  "upsert_stops c cid ss d = (err, d') \<Longrightarrow> dom (stops d) \<subseteq> dom (stops d')"
proof (induction ss arbitrary: d)
  case Nil
  then show ?case by simp
next
  case (Cons s ss)
  then show ?case
    by (fastforce split: sum.splits dest!: insert_or_replace_stop_Inr)
qed

subsection \<open>The loop over a city's routes\<close>

lemma insert_routes_frame:
  "insert_routes c origin cid ss d = (err, d') \<Longrightarrow>
     cities d' = cities d \<and> stops d' = stops d \<and> tables d' = tables d \<and> indexes d' = indexes d"
proof (induction ss arbitrary: d)
  case Nil
  then show ?case by simp
next
  case (Cons s ss)
  then show ?case
    by (auto split: sum.splits dest!: insert_or_ignore_route_Inr)
qed

lemma insert_routes_appends:
  "insert_routes c origin cid ss d = (err, d') \<Longrightarrow>
     \<exists>new. routes d' = routes d @ new \<and>
       (err = None \<longrightarrow>
          map route_key new = map (\<lambda>s. (Some origin, Some cid, None, Some (stop_id s))) ss)"
proof (induction ss arbitrary: d)
  case Nil
  then show ?case by simp
next
  case (Cons s ss)
  show ?case
  proof (cases "insert_or_ignore_route c (Some origin) (Some cid) None (Some (stop_id s)) d")
    case (Inl e)
    with Cons.prems show ?thesis by auto
  next
    case (Inr d1)
    then obtain row n where row: "route_key row = (Some origin, Some cid, None, Some (stop_id s))"
      and d1: "d1 = d\<lparr>routes := routes d @ [row], seq := n\<rparr>"
      using insert_or_ignore_route_Inr by blast
    from Inr Cons.prems have rest: "insert_routes c origin cid ss d1 = (err, d')" by simp
    from Cons.IH[OF rest] obtain new where
      new: "routes d' = routes d1 @ new"
        "err = None \<longrightarrow> map route_key new = map (\<lambda>s. (Some origin, Some cid, None, Some (stop_id s))) ss"
      by blast
    have "routes d' = routes d @ (row # new)" using new(1) d1 by simp
    moreover have "err = None \<longrightarrow> map route_key (row # new) =
        map (\<lambda>s. (Some origin, Some cid, None, Some (stop_id s))) (s # ss)"
      using new(2) row by simp
    ultimately show ?thesis by blast
  qed
qed


subsection \<open>One city of an outcome\<close>

lemma process_city_cases:
  assumes "process_city c origin city d = (err, d')"
  obtains
    (city_fails) e where
      "insert_or_replace_city c (id_city city) (city_name city) (city_slug city)
         (py_bool (is_waypoint city)) (py_bool (is_top city)) d = Inl e"
      "err = Some e" "d' = d"
  | (stops_fail) d1 e where
      "insert_or_replace_city c (id_city city) (city_name city) (city_slug city)
         (py_bool (is_waypoint city)) (py_bool (is_top city)) d = Inr d1"
      "upsert_stops c (id_city city) (city_stops city) d1 = (Some e, d')"
      "err = Some e"
  | (routes) d1 d2 where
      "insert_or_replace_city c (id_city city) (city_name city) (city_slug city)
         (py_bool (is_waypoint city)) (py_bool (is_top city)) d = Inr d1"
      "upsert_stops c (id_city city) (city_stops city) d1 = (None, d2)"
      "insert_routes c origin (id_city city) (city_stops city) d2 = (err, d')"
  using assms unfolding process_city_def
  by (auto split: sum.splits prod.splits option.splits)

lemma process_city_grows:
  assumes "process_city c origin city d = (err, d')"
  shows "dom (cities d) \<subseteq> dom (cities d')" and "dom (stops d) \<subseteq> dom (stops d')"
    and "\<exists>new. routes d' = routes d @ new"
    and "tables d' = tables d" and "indexes d' = indexes d"
proof -
  show "dom (cities d) \<subseteq> dom (cities d')"
    using assms
    by (cases rule: process_city_cases)
       (auto dest!: insert_or_replace_city_Inr upsert_stops_frame insert_routes_frame)
  show "dom (stops d) \<subseteq> dom (stops d')"
    using assms
  proof (cases rule: process_city_cases)
    case (city_fails e)
    then show ?thesis by simp
  next
    case (stops_fail d1 e)
    from stops_fail(1) have "stops d1 = stops d"
      by (auto dest!: insert_or_replace_city_Inr)
    with upsert_stops_dom[OF stops_fail(2)] show ?thesis by simp
  next
    case (routes d1 d2)
    from routes(1) have "stops d1 = stops d"
      by (auto dest!: insert_or_replace_city_Inr)
    with upsert_stops_dom[OF routes(2)] insert_routes_frame[OF routes(3)]
    show ?thesis by simp
  qed
  show "\<exists>new. routes d' = routes d @ new"
    using assms
  proof (cases rule: process_city_cases)
    case (city_fails e)
    then show ?thesis by simp
  next
    case (stops_fail d1 e)
    from stops_fail(1) have "routes d1 = routes d"
      by (auto dest!: insert_or_replace_city_Inr)
    with upsert_stops_frame[OF stops_fail(2)] show ?thesis by simp
  next
    case (routes d1 d2)
    from routes(1) have "routes d1 = routes d"
      by (auto dest!: insert_or_replace_city_Inr)
    with upsert_stops_frame[OF routes(2)] insert_routes_appends[OF routes(3)]
    show ?thesis by auto
  qed
  show "tables d' = tables d"
    using assms
    by (cases rule: process_city_cases)
       (auto dest!: insert_or_replace_city_Inr upsert_stops_frame insert_routes_frame)
  show "indexes d' = indexes d"
    using assms
    by (cases rule: process_city_cases)
       (auto dest!: insert_or_replace_city_Inr upsert_stops_frame insert_routes_frame)
qed

lemma process_city_changed:
  assumes "process_city c origin city d = (err, d')" and "stops d' k \<noteq> stops d k"
  shows "(\<exists>s\<in>set (city_stops city). stop_id s = k) \<and>
         (\<exists>row. stops d' k = Some row \<and> stops_city_id row = Some (id_city city)) \<and>
         cities d' (id_city city) \<noteq> None"
  using assms(1)
proof (cases rule: process_city_cases)
  case (city_fails e)
  with assms(2) show ?thesis by simp
next
  case (stops_fail d1 e)
  from stops_fail(1) have d1: "stops d1 = stops d" "cities d1 (id_city city) \<noteq> None"
    by (auto dest!: insert_or_replace_city_Inr)
  from upsert_stops_changed[OF stops_fail(2), of k] upsert_stops_frame[OF stops_fail(2)] assms(2) d1
  show ?thesis by simp
next
  case (routes d1 d2)
  from routes(1) have d1: "stops d1 = stops d" "cities d1 (id_city city) \<noteq> None"
    by (auto dest!: insert_or_replace_city_Inr)
  from upsert_stops_changed[OF routes(2), of k] upsert_stops_frame[OF routes(2)]
    insert_routes_frame[OF routes(3)] assms(2) d1
  show ?thesis by simp
qed

lemma process_city_written:
  assumes "process_city c origin city d = (None, d')"
  shows "cities d' (id_city city) \<noteq> None"
    and "s \<in> set (city_stops city) \<Longrightarrow>
           \<exists>row. stops d' (stop_id s) = Some row \<and> stops_city_id row = Some (id_city city)"
    and "s \<in> set (city_stops city) \<Longrightarrow>
           (Some origin, Some (id_city city), None, Some (stop_id s)) \<in> route_key ` set (routes d')"
proof -
  from assms obtain d1 d2 where
    1: "insert_or_replace_city c (id_city city) (city_name city) (city_slug city)
         (py_bool (is_waypoint city)) (py_bool (is_top city)) d = Inr d1"
    and 2: "upsert_stops c (id_city city) (city_stops city) d1 = (None, d2)"
    and 3: "insert_routes c origin (id_city city) (city_stops city) d2 = (None, d')"
    by (cases rule: process_city_cases) auto
  from 1 have d1: "cities d1 (id_city city) \<noteq> None"
    by (auto dest!: insert_or_replace_city_Inr)
  note f2 = upsert_stops_frame[OF 2] and f3 = insert_routes_frame[OF 3]
  show "cities d' (id_city city) \<noteq> None" using d1 f2 f3 by simp
  show "\<exists>row. stops d' (stop_id s) = Some row \<and> stops_city_id row = Some (id_city city)"
    if "s \<in> set (city_stops city)"
    using upsert_stops_written[OF 2 that] f3 by simp
  show "(Some origin, Some (id_city city), None, Some (stop_id s)) \<in> route_key ` set (routes d')"
    if "s \<in> set (city_stops city)"
  proof -
    from insert_routes_appends[OF 3] obtain new where
      new: "routes d' = routes d2 @ new"
        "map route_key new =
           map (\<lambda>s. (Some origin, Some (id_city city), None, Some (stop_id s))) (city_stops city)"
      by blast
    have "(Some origin, Some (id_city city), None, Some (stop_id s)) \<in> set (map route_key new)"
      unfolding new(2) using that by auto
    then show ?thesis using new(1) by auto
  qed
qed


subsection \<open>All cities of an outcome\<close>

lemma process_cities_grows:
  "process_cities c origin cs d = (err, d') \<Longrightarrow>
     dom (cities d) \<subseteq> dom (cities d') \<and> dom (stops d) \<subseteq> dom (stops d') \<and>
     (\<exists>new. routes d' = routes d @ new) \<and> tables d' = tables d \<and> indexes d' = indexes d"
proof (induction cs arbitrary: d)
  case Nil
  then show ?case by simp
next
  case (Cons city rest)
  obtain e1 d1 where 1: "process_city c origin city d = (e1, d1)"
    by (cases "process_city c origin city d")
  note g = process_city_grows[OF 1]
  show ?case
  proof (cases e1)
    case (Some e)
    with Cons.prems 1 have "d' = d1" by simp
    with g show ?thesis by simp
  next
    case None
    with Cons.prems 1 have "process_cities c origin rest d1 = (err, d')" by simp
    from Cons.IH[OF this] have i: "dom (cities d1) \<subseteq> dom (cities d')"
      "dom (stops d1) \<subseteq> dom (stops d')" "\<exists>new. routes d' = routes d1 @ new"
      "tables d' = tables d1" "indexes d' = indexes d1"
      by simp_all
    from g(1) i(1) have "dom (cities d) \<subseteq> dom (cities d')" by (rule order_trans)
    moreover from g(2) i(2) have "dom (stops d) \<subseteq> dom (stops d')" by (rule order_trans)
    moreover from g(3) i(3) have "\<exists>new. routes d' = routes d @ new" by auto
    ultimately show ?thesis using g(4,5) i(4,5) by simp
  qed
qed

lemma process_cities_keeps:
  assumes "process_cities c origin cs d = (err, d')"
  shows "cities d k \<noteq> None \<Longrightarrow> cities d' k \<noteq> None"
    and "stops d k \<noteq> None \<Longrightarrow> stops d' k \<noteq> None"
    and "x \<in> route_key ` set (routes d) \<Longrightarrow> x \<in> route_key ` set (routes d')"
proof -
  note g = process_cities_grows[OF assms]
  show "cities d' k \<noteq> None" if "cities d k \<noteq> None"
    using g that by (meson domIff subsetD)
  show "stops d' k \<noteq> None" if "stops d k \<noteq> None"
    using g that by (meson domIff subsetD)
  show "x \<in> route_key ` set (routes d')" if "x \<in> route_key ` set (routes d)"
    using g that by auto
qed

lemma process_cities_changed:
  "process_cities c origin cs d = (err, d') \<Longrightarrow> stops d' k \<noteq> stops d k \<Longrightarrow>
     \<exists>city\<in>set cs. (\<exists>s\<in>set (city_stops city). stop_id s = k) \<and>
        (\<exists>row. stops d' k = Some row \<and> stops_city_id row = Some (id_city city)) \<and>
        cities d' (id_city city) \<noteq> None"
proof (induction cs arbitrary: d)
  case Nil
  then show ?case by simp
next
  case (Cons city rest)
  obtain e1 d1 where 1: "process_city c origin city d = (e1, d1)"
    by (cases "process_city c origin city d")
  show ?case
  proof (cases e1)
    case (Some e)
    with Cons.prems 1 have "d' = d1" by simp
    with process_city_changed[OF 1, of k] Cons.prems(2) show ?thesis by simp
  next
    case None
    with Cons.prems 1 have rest: "process_cities c origin rest d1 = (err, d')" by simp
    show ?thesis
    proof (cases "stops d' k = stops d1 k")
      case True
      with Cons.prems(2) have "stops d1 k \<noteq> stops d k" by simp
      from process_city_changed[OF 1 this] True process_cities_keeps(1)[OF rest]
      show ?thesis by auto
    next
      case False
      from Cons.IH[OF rest False] show ?thesis by auto
    qed
  qed
qed

lemma process_cities_written:
  assumes "process_cities c origin cs d = (None, d')"
    and "city \<in> set cs" and "s \<in> set (city_stops city)"
  shows "cities d' (id_city city) \<noteq> None"
    and "\<exists>city'\<in>set cs. (\<exists>s'\<in>set (city_stops city'). stop_id s' = stop_id s) \<and>
           (\<exists>row. stops d' (stop_id s) = Some row \<and> stops_city_id row = Some (id_city city')) \<and>
           cities d' (id_city city') \<noteq> None"
    and "(Some origin, Some (id_city city), None, Some (stop_id s)) \<in> route_key ` set (routes d')"
  using assms
proof (induction cs arbitrary: d)
  case Nil
  { case 1 then show ?case by simp }
  { case 2 then show ?case by simp }
  { case 3 then show ?case by simp }
next
  case (Cons a rest)
  { case 1 note prems = this
    from prems(1) obtain d1 where 1: "process_city c origin a d = (None, d1)"
      and rest: "process_cities c origin rest d1 = (None, d')"
      by (auto split: prod.splits option.splits)
    show ?case
    proof (cases "city \<in> set rest")
      case True
      from Cons.IH(1)[OF rest True prems(3)] show ?thesis .
    next
      case False
      with prems(2) have "city = a" by simp
      with process_city_written(1)[OF 1] process_cities_keeps(1)[OF rest]
      show ?thesis by auto
    qed }
  { case 2 note prems = this
    from prems(1) obtain d1 where 1: "process_city c origin a d = (None, d1)"
      and rest: "process_cities c origin rest d1 = (None, d')"
      by (auto split: prod.splits option.splits)
    show ?case
    proof (cases "city \<in> set rest")
      case True
      from Cons.IH(2)[OF rest True prems(3)] show ?thesis by auto
    next
      case False
      with prems(2) have a: "city = a" by simp
      show ?thesis
      proof (cases "stops d' (stop_id s) = stops d1 (stop_id s)")
        case True
        from process_city_written(1,2)[OF 1] prems(3) a True process_cities_keeps(1)[OF rest]
        have "(\<exists>row. stops d' (stop_id s) = Some row \<and> stops_city_id row = Some (id_city a)) \<and>
              cities d' (id_city a) \<noteq> None"
          by auto
        with prems(3) a show ?thesis by auto
      next
        case False
        from process_cities_changed[OF rest False] show ?thesis by auto
      qed
    qed }
  { case 3 note prems = this
    from prems(1) obtain d1 where 1: "process_city c origin a d = (None, d1)"
      and rest: "process_cities c origin rest d1 = (None, d')"
      by (auto split: prod.splits option.splits)
    show ?case
    proof (cases "city \<in> set rest")
      case True
      from Cons.IH(3)[OF rest True prems(3)] show ?thesis .
    next
      case False
      with prems(2) have a: "city = a" by simp
      from process_city_written(3)[OF 1, of s] prems(3) a
      have "(Some origin, Some (id_city city), None, Some (stop_id s)) \<in> route_key ` set (routes d1)"
        by simp
      with process_cities_keeps(3)[OF rest] show ?thesis by auto
    qed }
qed

subsection \<open>A whole outcome\<close>

text \<open>
  C10. For every processed outcome, a Stop row that the outcome writes carries as its
  \<open>city_id\<close> the \<open>id_city\<close> of a destination-city record of that outcome under which a
  stop record with this id is nested, and the City row of that record exists. When the
  outcome is written without error this holds for every stop record it contains.
\<close>

theorem stop_city_id_is_enclosing_city:
  assumes "process_city_data c cd d = (err, d')"
  shows "(\<forall>k. stops d' k \<noteq> stops d k \<longrightarrow>
            (\<exists>city\<in>set (data cd). (\<exists>s\<in>set (city_stops city). stop_id s = k) \<and>
               (\<exists>row. stops d' k = Some row \<and> stops_city_id row = Some (id_city city)) \<and>
               cities d' (id_city city) \<noteq> None)) \<and>
         (err = None \<longrightarrow>
            (\<forall>city\<in>set (data cd). \<forall>s\<in>set (city_stops city).
               \<exists>city'\<in>set (data cd). (\<exists>s'\<in>set (city_stops city'). stop_id s' = stop_id s) \<and>
                 (\<exists>row. stops d' (stop_id s) = Some row \<and>
                        stops_city_id row = Some (id_city city')) \<and>
                 cities d' (id_city city') \<noteq> None))"
proof (intro conjI allI impI ballI)
  fix k assume "stops d' k \<noteq> stops d k"
  with assms show "\<exists>city\<in>set (data cd). (\<exists>s\<in>set (city_stops city). stop_id s = k) \<and>
      (\<exists>row. stops d' k = Some row \<and> stops_city_id row = Some (id_city city)) \<and>
      cities d' (id_city city) \<noteq> None"
    unfolding process_city_data_def by (rule process_cities_changed)
next
  fix city s
  assume "err = None" "city \<in> set (data cd)" "s \<in> set (city_stops city)"
  with assms show "\<exists>city'\<in>set (data cd). (\<exists>s'\<in>set (city_stops city'). stop_id s' = stop_id s) \<and>
      (\<exists>row. stops d' (stop_id s) = Some row \<and> stops_city_id row = Some (id_city city')) \<and>
      cities d' (id_city city') \<noteq> None"
    unfolding process_city_data_def by (intro process_cities_written(2)) simp_all
qed

subsection \<open>Errors on a connection without foreign keys\<close>






subsection \<open>The coordinator's loop\<close>

lemma consume_append: "consume c net (xs @ ys) st = consume c net ys (consume c net xs st)"
proof (induction xs arbitrary: st)
  case Nil
  show ?case by simp
next
  case (Cons x xs)
  obtain d lg where st: "st = (d, lg)" by (cases st)
  show ?case unfolding st by (simp add: Cons split: prod.splits option.splits)
qed

lemma consume_step:
  obtains
    (skipped) fl where "fetch_city_data k (net k) = (None, fl)"
      "consume c net [k] (d, lg) = (d, lg @ fl)"
  | (fetched) cd fl err d1 where "fetch_city_data k (net k) = (Some cd, fl)"
      "process_city_data c cd d = (err, d1)"
      "consume c net [k] (d, lg) =
         (d1, lg @ fl @ [case err of None \<Rightarrow> Info_processed k | Some e \<Rightarrow> Error_processing k e])"
proof (cases "fetch_city_data k (net k)")
  case (Pair out fl)
  show ?thesis
  proof (cases out)
    case None
    with Pair show ?thesis by (intro skipped[of fl]) simp_all
  next
    case (Some cd)
    obtain err d1 where p: "process_city_data c cd d = (err, d1)"
      by (cases "process_city_data c cd d")
    with Pair Some show ?thesis
      by (intro fetched[of cd fl err d1]) (simp_all split: option.splits)
  qed
qed







subsection \<open>The writer leaves the origin stop null\<close>

lemma insert_routes_null_origin_stop:
  "insert_routes c origin cid ss d = (err, d') \<Longrightarrow>
     \<forall>r\<in>set (routes d). from_stop_id r = None \<Longrightarrow>
     \<forall>r\<in>set (routes d'). from_stop_id r = None"
proof (induction ss arbitrary: d)
  case Nil
  then show ?case by simp
next
  case (Cons s ss)
  show ?case
  proof (cases "insert_or_ignore_route c (Some origin) (Some cid) None (Some (stop_id s)) d")
    case (Inl e)
    with Cons.prems show ?thesis by simp
  next
    case (Inr d1)
    then obtain row n where "route_key row = (Some origin, Some cid, None, Some (stop_id s))"
      and "d1 = d\<lparr>routes := routes d @ [row], seq := n\<rparr>"
      using insert_or_ignore_route_Inr by blast
    with Cons.prems(2) have "\<forall>r\<in>set (routes d1). from_stop_id r = None"
      by (simp add: route_key_def)
    moreover from Inr Cons.prems(1) have "insert_routes c origin cid ss d1 = (err, d')" by simp
    ultimately show ?thesis by (rule Cons.IH[rotated])
  qed
qed

lemma process_city_null_origin_stop:
  assumes "process_city c origin city d = (err, d')"
    and "\<forall>r\<in>set (routes d). from_stop_id r = None"
  shows "\<forall>r\<in>set (routes d'). from_stop_id r = None"
  using assms(1)
proof (cases rule: process_city_cases)
  case (city_fails e)
  with assms(2) show ?thesis by simp
next
  case (stops_fail d1 e)
  from stops_fail(1) have "routes d1 = routes d"
    by (auto dest!: insert_or_replace_city_Inr)
  with upsert_stops_frame[OF stops_fail(2)] assms(2) show ?thesis by simp
next
  case (routes d1 d2)
  from routes(1) have "routes d1 = routes d"
    by (auto dest!: insert_or_replace_city_Inr)
  with upsert_stops_frame[OF routes(2)] assms(2)
  have "\<forall>r\<in>set (routes d2). from_stop_id r = None" by simp
  with routes(3) show ?thesis by (rule insert_routes_null_origin_stop)
qed

lemma process_cities_null_origin_stop:
  "process_cities c origin cs d = (err, d') \<Longrightarrow>
     \<forall>r\<in>set (routes d). from_stop_id r = None \<Longrightarrow>
     \<forall>r\<in>set (routes d'). from_stop_id r = None"
proof (induction cs arbitrary: d)
  case Nil
  then show ?case by simp
next
  case (Cons city rest)
  obtain e1 d1 where 1: "process_city c origin city d = (e1, d1)"
    by (cases "process_city c origin city d")
  note n1 = process_city_null_origin_stop[OF 1 Cons.prems(2)]
  show ?case
  proof (cases e1)
    case (Some e)
    with Cons.prems(1) 1 have "d' = d1" by simp
    with n1 show ?thesis by simp
  next
    case None
    with Cons.prems(1) 1 have "process_cities c origin rest d1 = (err, d')" by simp
    then show ?thesis using n1 by (rule Cons.IH)
  qed
qed

lemma consume_null_origin_stop:
  "consume c net ids (d, lg) = (d', lg') \<Longrightarrow>
     \<forall>r\<in>set (routes d). from_stop_id r = None \<Longrightarrow>
     \<forall>r\<in>set (routes d'). from_stop_id r = None"
proof (induction ids arbitrary: d lg)
  case Nil
  then show ?case by simp
next
  case (Cons k rest)
  have split: "consume c net (k # rest) (d, lg) = consume c net rest (consume c net [k] (d, lg))"
    using consume_append[of c net "[k]" rest "(d, lg)"] by simp
  show ?case
  proof (cases rule: consume_step[of k net c d lg])
    case (skipped fl)
    with split Cons.prems(1) have "consume c net rest (d, lg @ fl) = (d', lg')" by simp
    then show ?thesis using Cons.prems(2) by (rule Cons.IH)
  next
    case (fetched cd fl err d1)
    with split Cons.prems(1) have rest:
      "consume c net rest (d1, lg @ fl @
          [case err of None \<Rightarrow> Info_processed k | Some e \<Rightarrow> Error_processing k e]) = (d', lg')"
      by simp
    from fetched(2) Cons.prems(2) have "\<forall>r\<in>set (routes d1). from_stop_id r = None"
      unfolding process_city_data_def by (rule process_cities_null_origin_stop)
    with rest show ?thesis by (rule Cons.IH)
  qed
qed

lemma populate_database_null_origin_stop:
  assumes "populate_database net order d = (d', lg)"
    and "\<forall>r\<in>set (routes d). from_stop_id r = None"
  shows "\<forall>r\<in>set (routes d'). from_stop_id r = None"
proof -
  from assms(1) obtain lg1 where "consume sqlite3_connect net order (d, []) = (d', lg1)"
    by (auto simp: populate_database_def split: prod.splits)
  then show ?thesis using assms(2) by (rule consume_null_origin_stop)
qed

section \<open>Properties of the fetch task\<close>

text \<open>
  C5 (amended). A fetch task yields a data outcome, carrying the identifier and the decoded
  payload, exactly when a response arrives whose status is not a client or server error
  (not in 400 to 599) and whose decoded body has the result success and a non-empty data
  payload. A response with such a status and any other body yields a skip and logs nothing.
  A timeout, a failed connection and a status from 400 to 599 yield a skip with one error
  entry in the log; the task returns in every case.
\<close>

theorem fetch_outcomes:
  "(fst (fetch_city_data cid t) = Some cd \<longleftrightarrow>
      (\<exists>st body. t = Response st body \<and> \<not> (400 \<le> st \<and> st < 600) \<and>
         resp_result body = ''success'' \<and> resp_data body \<noteq> [] \<and>
         cd = \<lparr>city_id = cid, data = resp_data body\<rparr>)) \<and>
   (\<not> (400 \<le> st \<and> st < 600) \<and> (resp_result body \<noteq> ''success'' \<or> resp_data body = []) \<longrightarrow>
      fetch_city_data cid (Response st body) = (None, [])) \<and>
   fetch_city_data cid Timeout = (None, [Error_fetching cid ReadTimeout]) \<and>
   fetch_city_data cid ConnectionError = (None, [Error_fetching cid ConnectionFailed]) \<and>
   (400 \<le> st \<and> st < 600 \<longrightarrow>
      fetch_city_data cid (Response st body) = (None, [Error_fetching cid (HTTPError st)]))"
proof (intro conjI impI)
  show "fst (fetch_city_data cid t) = Some cd \<longleftrightarrow>
      (\<exists>st body. t = Response st body \<and> \<not> (400 \<le> st \<and> st < 600) \<and>
         resp_result body = ''success'' \<and> resp_data body \<noteq> [] \<and>
         cd = \<lparr>city_id = cid, data = resp_data body\<rparr>)"
    by (cases t) (auto simp: fetch_city_data_def requests_get_def raise_for_status_def)
next
  assume "\<not> (400 \<le> st \<and> st < 600) \<and> (resp_result body \<noteq> ''success'' \<or> resp_data body = [])"
  then show "fetch_city_data cid (Response st body) = (None, [])"
    by (auto simp: fetch_city_data_def requests_get_def raise_for_status_def)
next
  show "fetch_city_data cid Timeout = (None, [Error_fetching cid ReadTimeout])"
    by (simp add: fetch_city_data_def requests_get_def)
next
  show "fetch_city_data cid ConnectionError = (None, [Error_fetching cid ConnectionFailed])"
    by (simp add: fetch_city_data_def requests_get_def)
next
  assume "400 \<le> st \<and> st < 600"
  then show "fetch_city_data cid (Response st body) = (None, [Error_fetching cid (HTTPError st)])"
    by (simp add: fetch_city_data_def requests_get_def raise_for_status_def)
qed

section \<open>Properties of the exporter\<close>

lemma set_select_routes:
  "set (select_routes d) = {row. \<exists>r\<in>set (routes d). join_route d r = Some row}"
  by (force simp: select_routes_def List.map_filter_def)

lemma length_select_routes:
  "length (select_routes d) = length (filter (\<lambda>r. join_route d r \<noteq> None) (routes d))"
  by (simp add: select_routes_def List.map_filter_def)

lemma sorted_select_routes: "sorted (map order_by (select_routes d))"
  by (simp add: select_routes_def)

lemma join_route_Some_iff:
  "join_route d r \<noteq> None \<longleftrightarrow>
     (\<exists>i. from_city_id r = Some i \<and> cities d i \<noteq> None) \<and>
     (\<exists>j. to_city_id r = Some j \<and> cities d j \<noteq> None) \<and>
     (\<exists>k. to_stop_id r = Some k \<and> stops d k \<noteq> None)"
  by (auto simp: join_route_def lookup_def split: option.splits)

lemma render_join_route:
  assumes "join_route d r = Some row"
  shows "summary_id (render row) = routes_id r"
    and "from_stop (render row) =
      (case lookup (stops d) (from_stop_id r) of
         None \<Rightarrow> ''Any''
       | Some s \<Rightarrow> if stops_title s = [] then ''Any'' else stops_title s)"
    and "fst (snd (snd (snd row))) = map_option stops_title (lookup (stops d) (from_stop_id r))"
  using assms
  by (auto simp: join_route_def render_def or_any_def split: option.splits)

text \<open>
  C9. For every store, the export holds one entry for each Route row whose \<open>from_city_id\<close>,
  \<open>to_city_id\<close> and \<open>to_stop_id\<close> each match an existing City or Stop row, and no other
  entry: a route whose origin city has no row is left out. The origin stop is not needed:
  when it is null or matches no Stop row, and also when the matching Stop has the empty
  title, the entry's \<open>from_stop\<close> is the string Any.
\<close>

theorem export_is_inner_join:
  "set (select_routes d) = {row. \<exists>r\<in>set (routes d). join_route d r = Some row} \<and>
   export_route_summary d = map render (select_routes d) \<and>
   length (export_route_summary d) = length (filter (\<lambda>r. join_route d r \<noteq> None) (routes d)) \<and>
   (join_route d r \<noteq> None \<longleftrightarrow>
     (\<exists>i. from_city_id r = Some i \<and> cities d i \<noteq> None) \<and>
     (\<exists>j. to_city_id r = Some j \<and> cities d j \<noteq> None) \<and>
     (\<exists>k. to_stop_id r = Some k \<and> stops d k \<noteq> None)) \<and>
   (join_route d r = Some row \<longrightarrow>
      summary_id (render row) = routes_id r \<and>
      from_stop (render row) =
        (case lookup (stops d) (from_stop_id r) of
           None \<Rightarrow> ''Any''
         | Some s \<Rightarrow> if stops_title s = [] then ''Any'' else stops_title s))"
  using set_select_routes[of d] length_select_routes[of d] join_route_Some_iff[of d r]
    render_join_route(1,2)[of d r row]
  by (simp add: export_route_summary_def)

lemma any_key_mono:
  fixes a1 a2 a4 b1 b2 b4 :: string
  assumes "(a1, a2, None :: string option, a4) \<le> (b1, b2, None, b4)"
  shows "(a1, a2, ''Any'', a4) \<le> (b1, b2, ''Any'', b4)"
  using assms by auto

text \<open>
  C6. For every store, the exported sequence is the rendering of the query's rows in their
  order, and these are sorted by the key (from city name, to city name, origin stop title,
  to stop title); every route with a null origin stop that the query returns is rendered
  with \<open>from_stop\<close> Any. When all routes have a null origin stop, the exported entries are
  sorted by their own four fields and all show Any; this is so for every store that
  \<^verbatim>\<open>populate_database\<close> makes of a store without origin stops, an empty one for instance.
\<close>

theorem export_sorted:
  "sorted (map order_by (select_routes d)) \<and>
   export_route_summary d = map render (select_routes d) \<and>
   (\<forall>r\<in>set (routes d). \<forall>row. from_stop_id r = None \<and> join_route d r = Some row \<longrightarrow>
      row \<in> set (select_routes d) \<and> from_stop (render row) = ''Any'') \<and>
   ((\<forall>r\<in>set (routes d). from_stop_id r = None) \<or>
    (populate_database net order d0 = (d, lg) \<and> (\<forall>r\<in>set (routes d0). from_stop_id r = None)) \<longrightarrow>
      sorted (map (\<lambda>e. (from_city e, to_city e, from_stop e, to_stop e)) (export_route_summary d)) \<and>
      (\<forall>e\<in>set (export_route_summary d). from_stop e = ''Any''))"
proof (intro conjI ballI allI impI)
  show "sorted (map order_by (select_routes d))" by (rule sorted_select_routes)
  show "export_route_summary d = map render (select_routes d)"
    by (simp add: export_route_summary_def)
next
  fix r row
  assume r: "r \<in> set (routes d)" and "from_stop_id r = None \<and> join_route d r = Some row"
  then have n: "from_stop_id r = None" and j: "join_route d r = Some row" by simp_all
  from r j show "row \<in> set (select_routes d)" by (auto simp: set_select_routes)
  from render_join_route(2)[OF j] n show "from_stop (render row) = ''Any''"
    by (simp add: lookup_def)
next
  assume "(\<forall>r\<in>set (routes d). from_stop_id r = None) \<or>
    (populate_database net order d0 = (d, lg) \<and> (\<forall>r\<in>set (routes d0). from_stop_id r = None))"
  then have all: "\<forall>r\<in>set (routes d). from_stop_id r = None"
    using populate_database_null_origin_stop[of net order d0 d lg] by blast
  have none: "fst (snd (snd (snd row))) = None" if "row \<in> set (select_routes d)" for row
  proof -
    from that obtain r where "r \<in> set (routes d)" "join_route d r = Some row"
      by (auto simp: set_select_routes)
    with all render_join_route(3)[of d r row] show ?thesis by (simp add: lookup_def)
  qed
  have "sorted_wrt (\<lambda>x y. order_by x \<le> order_by y) (select_routes d)"
    using sorted_select_routes[of d] by (simp add: sorted_map)
  then have "sorted_wrt (\<lambda>x y. (\<lambda>e. (from_city e, to_city e, from_stop e, to_stop e)) (render x)
        \<le> (\<lambda>e. (from_city e, to_city e, from_stop e, to_stop e)) (render y)) (select_routes d)"
  proof (rule sorted_wrt_mono_rel[rotated])
    fix x y assume xy: "x \<in> set (select_routes d)" "y \<in> set (select_routes d)"
      and le: "order_by x \<le> order_by y"
    obtain i1 a1 a2 a3 a4 where x: "x = (i1, a1, a2, a3, a4)" by (cases x)
    obtain i2 b1 b2 b3 b4 where y: "y = (i2, b1, b2, b3, b4)" by (cases y)
    from none[OF xy(1)] none[OF xy(2)] x y have "a3 = None" "b3 = None" by simp_all
    with le x y have "(a1, a2, None :: string option, a4) \<le> (b1, b2, None, b4)"
      by (simp add: order_by_def)
    then have "(a1, a2, ''Any'', a4) \<le> (b1, b2, ''Any'', b4)" by (rule any_key_mono)
    with x y \<open>a3 = None\<close> \<open>b3 = None\<close>
    show "(\<lambda>e. (from_city e, to_city e, from_stop e, to_stop e)) (render x)
        \<le> (\<lambda>e. (from_city e, to_city e, from_stop e, to_stop e)) (render y)"
      by (simp add: render_def or_any_def)
  qed
  then show "sorted (map (\<lambda>e. (from_city e, to_city e, from_stop e, to_stop e)) (export_route_summary d))"
    by (simp add: export_route_summary_def sorted_map)
  fix e assume "e \<in> set (export_route_summary d)"
  then obtain row where row: "row \<in> set (select_routes d)" and e: "e = render row"
    by (auto simp: export_route_summary_def)
  obtain i1 a1 a2 a3 a4 where x: "row = (i1, a1, a2, a3, a4)" by (cases row)
  with none[OF row] e show "from_stop e = ''Any''" by (simp add: render_def or_any_def)
qed

section \<open>Evaluation on the concrete inputs\<close>

lemmas store_defs = fresh_db_def new_file_def create_database_def create_cities_def
  create_stops_def create_routes_def create_index_def

lemmas writer_defs = process_city_data_def process_city_def insert_or_replace_city_def
  insert_or_replace_stop_def insert_or_ignore_route_def next_route_id_def references_def
  py_bool_def sqlite3_connect_def

lemmas riga_defs = riga_def central_def

lemma riga_processed:
  "process_city_data sqlite3_connect \<lparr>city_id = 5, data = [riga]\<rparr> fresh_db = (None, riga_db)"
  by (simp add: writer_defs riga_defs store_defs riga_db_def)

theorem stop_city_id_is_enclosing_city_witness:
  "fst (process_city_data sqlite3_connect \<lparr>city_id = 5, data = [riga]\<rparr> fresh_db) = None \<and>
   (\<exists>row. stops (snd (process_city_data sqlite3_connect \<lparr>city_id = 5, data = [riga]\<rparr> fresh_db)) 100
             = Some row \<and> stops_city_id row = Some 9) \<and>
   cities (snd (process_city_data sqlite3_connect \<lparr>city_id = 5, data = [riga]\<rparr> fresh_db)) 9 \<noteq> None"
proof -
  let ?r = "process_city_data sqlite3_connect \<lparr>city_id = 5, data = [riga]\<rparr> fresh_db"
  have f: "fst ?r = None" by (simp add: riga_processed)
  then have h: "?r = (None, snd ?r)" by (simp add: prod_eq_iff)
  from stop_city_id_is_enclosing_city[OF h]
  have "\<forall>city\<in>set [riga]. \<forall>s\<in>set (city_stops city).
               \<exists>city'\<in>set [riga]. (\<exists>s'\<in>set (city_stops city'). stop_id s' = stop_id s) \<and>
                 (\<exists>row. stops (snd ?r) (stop_id s) = Some row \<and>
                        stops_city_id row = Some (id_city city')) \<and>
                 cities (snd ?r) (id_city city') \<noteq> None"
    by simp
  then show ?thesis using f by (simp add: riga_defs)
qed

lemma consume_skips:
  "\<forall>i\<in>set ids. fetch_city_data i (net i) = (None, []) \<Longrightarrow> consume c net ids st = st"
proof (induction ids)
  case Nil
  show ?case by simp
next
  case (Cons i ids)
  obtain d lg where "st = (d, lg)" by (cases st)
  with Cons show ?case by simp
qed

lemma consume_upto_only:
  assumes "lo \<le> k" "k \<le> hi"
    and "\<And>i. lo \<le> i \<Longrightarrow> i \<le> hi \<Longrightarrow> i \<noteq> k \<Longrightarrow> fetch_city_data i (net i) = (None, [])"
  shows "consume c net [lo..hi] st = consume c net [k] st"
proof -
  have "[lo..hi] = [lo..k - 1] @ [k] @ [k + 1..hi]"
    using upto_split3[OF assms(1,2)] by simp
  then have "consume c net [lo..hi] st =
      consume c net [k + 1..hi] (consume c net [k] (consume c net [lo..k - 1] st))"
    by (simp only: consume_append)
  also have "consume c net [lo..k - 1] st = st"
    using assms by (intro consume_skips) auto
  also have "consume c net [k + 1..hi] (consume c net [k] st) = consume c net [k] st"
    using assms by (intro consume_skips) auto
  finally show ?thesis .
qed

lemma consume_upto_two:
  assumes "lo \<le> k1" "k1 < k2" "k2 \<le> hi"
    and "\<And>i. lo \<le> i \<Longrightarrow> i \<le> hi \<Longrightarrow> i \<noteq> k1 \<Longrightarrow> i \<noteq> k2 \<Longrightarrow>
           fetch_city_data i (net i) = (None, [])"
  shows "consume c net [lo..hi] st = consume c net [k2] (consume c net [k1] st)"
    and "consume c net [lo..k2 - 1] st = consume c net [k1] st"
    and "[lo..hi] = [lo..k2 - 1] @ k2 # [k2 + 1..hi]"
proof -
  show split: "[lo..hi] = [lo..k2 - 1] @ k2 # [k2 + 1..hi]"
    using upto_split3[of lo k2 hi] assms(1-3) by simp
  show pre: "consume c net [lo..k2 - 1] st = consume c net [k1] st"
    using assms by (intro consume_upto_only) auto
  have "consume c net [lo..hi] st =
      consume c net [k2 + 1..hi] (consume c net [k2] (consume c net [lo..k2 - 1] st))"
    using consume_append[of c net "[lo..k2 - 1]" "[k2] @ [k2 + 1..hi]" st]
      consume_append[of c net "[k2]" "[k2 + 1..hi]"]
    by (simp only: split append_Cons append_Nil)
  also have "\<dots> = consume c net [k2] (consume c net [lo..k2 - 1] st)"
    using assms by (intro consume_skips) auto
  finally show "consume c net [lo..hi] st = consume c net [k2] (consume c net [k1] st)"
    by (simp only: pre)
qed

lemmas fetch_defs = fetch_city_data_def requests_get_def raise_for_status_def no_result_def

lemma riga_fetch:
  "fetch_city_data 5 (riga_net 5) = (Some \<lparr>city_id = 5, data = [riga]\<rparr>, [])"
  "i \<noteq> 5 \<Longrightarrow> fetch_city_data i (riga_net i) = (None, [])"
  by (simp_all add: fetch_defs riga_net_def riga_def)


lemma riga_run:
  "populate_database riga_net [1..1000] d =
     (case process_city_data sqlite3_connect \<lparr>city_id = 5, data = [riga]\<rparr> d of
        (None, d') \<Rightarrow> (d', [Info_processed 5, Info_completed])
      | (Some e, d') \<Rightarrow> (d', [Error_processing 5 e, Info_completed]))"
proof -
  have "consume sqlite3_connect riga_net [1..1000] (d, []) =
        consume sqlite3_connect riga_net [5] (d, [])"
    by (rule consume_upto_only) (simp_all add: riga_fetch)
  then show ?thesis
    unfolding populate_database_def
    by (simp add: riga_fetch split: prod.splits option.splits)
qed

lemma riga_processed_again:
  "process_city_data sqlite3_connect \<lparr>city_id = 5, data = [riga]\<rparr> riga_db = (None, riga_twice_db)"
  by (simp add: writer_defs riga_defs store_defs riga_db_def riga_twice_db_def)

lemma riga_first_run:
  "populate_database riga_net [1..1000] fresh_db = (riga_db, [Info_processed 5, Info_completed])"
  by (simp add: riga_run riga_processed)

lemma riga_second_run:
  "populate_database riga_net [1..1000] riga_db = (riga_twice_db, [Info_processed 5, Info_completed])"
  by (simp add: riga_run riga_processed_again)



theorem fetch_outcomes_witness:
  "fst (fetch_city_data 5 (Response 200 \<lparr>resp_result = ''success'', resp_data = [riga]\<rparr>))
     = Some \<lparr>city_id = 5, data = [riga]\<rparr> \<and>
   \<not> (400 \<le> (200::int) \<and> (200::int) < 600) \<and> resp_data no_result = [] \<and>
   fetch_city_data 5 (Response 200 no_result) = (None, []) \<and>
   400 \<le> (404::int) \<and> (404::int) < 600 \<and>
   fetch_city_data 5 (Response 404 no_result) = (None, [Error_fetching 5 (HTTPError 404)])"
  using fetch_outcomes[of 5 "Response 200 \<lparr>resp_result = ''success'', resp_data = [riga]\<rparr>"
      "\<lparr>city_id = 5, data = [riga]\<rparr>" 200 no_result]
    fetch_outcomes[of 5 Timeout "\<lparr>city_id = 5, data = []\<rparr>" 404 no_result]
  by (simp add: no_result_def)

text \<open>
  The claim C5 as stated fails on a status outside 200 to 299 that is no error status: a
  response with status 300 and a success body yields a data outcome, not a skip.
\<close>

theorem redirect_status_counterexample:
  "\<not> (200 \<le> (300::int) \<and> (300::int) < 300) \<and>
   fetch_city_data 5 (Response 300 \<lparr>resp_result = ''success'', resp_data = [riga]\<rparr>)
     = (Some \<lparr>city_id = 5, data = [riga]\<rparr>, [])"
  by (simp add: fetch_defs)

subsection \<open>The scenario, run twice\<close>

text \<open>
  C1. The claim asks for at most one Route row per logical key: inserting a route whose key
  is already present must add no row. The statement of the writer does add one. After the
  run of the scenario the store holds the route with the key (5, 9, null, 100); the same
  insert on that store succeeds and appends a second row with that key.
\<close>

theorem route_row_duplicated:
  "fst (populate_database riga_net [1..1000] fresh_db) = riga_db \<and>
   map route_key (routes riga_db) = [(Some 5, Some 9, None, Some 100)] \<and>
   insert_or_ignore_route sqlite3_connect (Some 5) (Some 9) None (Some 100) riga_db
     = Inr riga_twice_db \<and>
   map route_key (routes riga_twice_db)
     = [(Some 5, Some 9, None, Some 100), (Some 5, Some 9, None, Some 100)]"
proof -
  have "map route_key (routes riga_db) = [(Some 5, Some 9, None, Some 100)]"
    by (simp add: riga_db_def route_key_def)
  moreover have "insert_or_ignore_route sqlite3_connect (Some 5) (Some 9) None (Some 100) riga_db
     = Inr riga_twice_db"
    by (simp add: riga_db_def riga_twice_db_def insert_or_ignore_route_def next_route_id_def
          sqlite3_connect_def)
  moreover have "map route_key (routes riga_twice_db)
     = [(Some 5, Some 9, None, Some 100), (Some 5, Some 9, None, Some 100)]"
    by (simp add: riga_twice_db_def route_key_def)
  ultimately show ?thesis by (simp add: riga_first_run)
qed

text \<open>
  C2. The claim asks that a second run against the same replies leaves the same rows. On
  the scenario the initializer leaves the populated store as it is and the City and Stop
  rows are the same after the second run, but the Route table has grown from one row to two.
\<close>

theorem second_run_grows_routes:
  "populate_database riga_net [1..1000] fresh_db = (riga_db, [Info_processed 5, Info_completed]) \<and>
   create_database riga_db = riga_db \<and>
   populate_database riga_net [1..1000] riga_db
     = (riga_twice_db, [Info_processed 5, Info_completed]) \<and>
   cities riga_twice_db = cities riga_db \<and> stops riga_twice_db = stops riga_db \<and>
   length (routes riga_db) = 1 \<and> length (routes riga_twice_db) = 2"
proof -
  have "cities riga_twice_db = cities riga_db" "stops riga_twice_db = stops riga_db"
    "length (routes riga_db) = 1" "length (routes riga_twice_db) = 2"
    by (simp_all add: riga_db_def riga_twice_db_def)
  moreover have "create_database riga_db = riga_db"
    by (rule create_database_fix)
       (simp_all add: riga_db_def fresh_db_def tables_create_database indexes_create_database)
  ultimately show ?thesis by (simp add: riga_first_run riga_second_run)
qed

text \<open>
  C3. The claim asks that \<open>from_city_id\<close> of every Route row references an existing City
  row. After the run of the scenario, which logs no error, the only Route row has the origin
  5, and there is no City row 5. The schema declares the reference; a connection that
  enforced it would reject this outcome at the insert of the route.
\<close>

theorem route_origin_without_city:
  "populate_database riga_net [1..1000] fresh_db = (riga_db, [Info_processed 5, Info_completed]) \<and>
   map from_city_id (routes riga_db) = [Some 5] \<and> cities riga_db 5 = None \<and>
   fst (process_city_data (sqlite3_connect\<lparr>foreign_keys := True\<rparr>)
          \<lparr>city_id = 5, data = [riga]\<rparr> fresh_db)
     = Some (IntegrityError ''FOREIGN KEY constraint failed'')"
proof -
  have "map from_city_id (routes riga_db) = [Some 5]" "cities riga_db 5 = None"
    by (simp_all add: riga_db_def)
  moreover have "fst (process_city_data (sqlite3_connect\<lparr>foreign_keys := True\<rparr>)
          \<lparr>city_id = 5, data = [riga]\<rparr> fresh_db)
     = Some (IntegrityError ''FOREIGN KEY constraint failed'')"
    by (simp add: writer_defs riga_defs store_defs)
  ultimately show ?thesis by (simp add: riga_first_run)
qed

subsection \<open>An outcome whose write fails\<close>





subsection \<open>The export of concrete stores\<close>

lemma two_way_fetch:
  "fetch_city_data 5 (two_way_net 5) = (Some \<lparr>city_id = 5, data = [riga]\<rparr>, [])"
  "fetch_city_data 9 (two_way_net 9) = (Some \<lparr>city_id = 9, data = [tallinn]\<rparr>, [])"
  "i \<noteq> 5 \<Longrightarrow> i \<noteq> 9 \<Longrightarrow> fetch_city_data i (two_way_net i) = (None, [])"
  by (simp_all add: fetch_defs two_way_net_def riga_net_def riga_def tallinn_def)

lemma tallinn_processed:
  "process_city_data sqlite3_connect \<lparr>city_id = 9, data = [tallinn]\<rparr> riga_db = (None, two_way_db)"
  by (simp add: writer_defs tallinn_def harbour_def store_defs riga_db_def two_way_db_def)

lemma two_way_run:
  "populate_database two_way_net [1..1000] fresh_db =
     (two_way_db, [Info_processed 5, Info_processed 9, Info_completed])"
proof -
  have "consume sqlite3_connect two_way_net [1..1000] (fresh_db, []) =
        consume sqlite3_connect two_way_net [9] (consume sqlite3_connect two_way_net [5] (fresh_db, []))"
    by (rule consume_upto_two(1)) (simp_all add: two_way_fetch)
  then show ?thesis
    unfolding populate_database_def
    by (simp add: two_way_fetch riga_processed tallinn_processed)
qed

lemma two_way_rows:
  "select_routes two_way_db =
     [(2, ''Riga'', ''Tallinn'', None, ''Harbour''), (1, ''Tallinn'', ''Riga'', None, ''Central'')]"
  by (simp add: select_routes_def two_way_db_def riga_db_def store_defs List.map_filter_def
        join_route_def lookup_def order_by_def)

theorem export_sorted_witness:
  "populate_database two_way_net [1..1000] fresh_db =
     (two_way_db, [Info_processed 5, Info_processed 9, Info_completed]) \<and>
   routes fresh_db = [] \<and>
   map from_stop_id (routes two_way_db) = [None, None] \<and>
   export_route_summary two_way_db =
     [\<lparr>summary_id = 2, from_city = ''Riga'', to_city = ''Tallinn'',
        from_stop = ''Any'', to_stop = ''Harbour''\<rparr>,
      \<lparr>summary_id = 1, from_city = ''Tallinn'', to_city = ''Riga'',
        from_stop = ''Any'', to_stop = ''Central''\<rparr>] \<and>
   sorted (map order_by (select_routes two_way_db)) \<and>
   sorted (map (\<lambda>e. (from_city e, to_city e, from_stop e, to_stop e))
             (export_route_summary two_way_db))"
proof -
  have f: "routes fresh_db = []" by (simp add: store_defs)
  then have null: "populate_database two_way_net [1..1000] fresh_db =
      (two_way_db, [Info_processed 5, Info_processed 9, Info_completed]) \<and>
      (\<forall>r\<in>set (routes fresh_db). from_stop_id r = None)"
    by (simp add: two_way_run)
  have e: "export_route_summary two_way_db =
     [\<lparr>summary_id = 2, from_city = ''Riga'', to_city = ''Tallinn'',
        from_stop = ''Any'', to_stop = ''Harbour''\<rparr>,
      \<lparr>summary_id = 1, from_city = ''Tallinn'', to_city = ''Riga'',
        from_stop = ''Any'', to_stop = ''Central''\<rparr>]"
    by (simp add: export_route_summary_def two_way_rows render_def or_any_def)
  have m: "map from_stop_id (routes two_way_db) = [None, None]"
    by (simp add: two_way_db_def riga_db_def)
  from export_sorted[of two_way_db two_way_net "[1..1000]" fresh_db
      "[Info_processed 5, Info_processed 9, Info_completed]"] null
  have "sorted (map order_by (select_routes two_way_db))"
    "sorted (map (\<lambda>e. (from_city e, to_city e, from_stop e, to_stop e))
             (export_route_summary two_way_db))"
    by blast+
  with e m f two_way_run show ?thesis by simp
qed

lemma sample_rows:
  "select_routes sample_db =
     [(2, ''Minsk'', ''Riga'', None, ''Central''), (1, ''Riga'', ''Riga'', Some [], ''Central'')]"
  by (simp add: select_routes_def sample_db_def store_defs List.map_filter_def
        join_route_def lookup_def order_by_def)

theorem export_is_inner_join_witness:
  "routes sample_db =
     [\<lparr>routes_id = 1, from_city_id = Some 9, to_city_id = Some 9,
        from_stop_id = Some 101, to_stop_id = Some 100\<rparr>,
      \<lparr>routes_id = 2, from_city_id = Some 5, to_city_id = Some 9,
        from_stop_id = None, to_stop_id = Some 100\<rparr>,
      \<lparr>routes_id = 3, from_city_id = Some 77, to_city_id = Some 9,
        from_stop_id = None, to_stop_id = Some 100\<rparr>] \<and>
   cities sample_db 77 = None \<and>
   join_route sample_db \<lparr>routes_id = 3, from_city_id = Some 77, to_city_id = Some 9,
        from_stop_id = None, to_stop_id = Some 100\<rparr> = None \<and>
   join_route sample_db \<lparr>routes_id = 1, from_city_id = Some 9, to_city_id = Some 9,
        from_stop_id = Some 101, to_stop_id = Some 100\<rparr>
     = Some (1, ''Riga'', ''Riga'', Some [], ''Central'') \<and>
   from_stop (render (1, ''Riga'', ''Riga'', Some [], ''Central'')) = ''Any'' \<and>
   export_route_summary sample_db =
     [\<lparr>summary_id = 2, from_city = ''Minsk'', to_city = ''Riga'',
        from_stop = ''Any'', to_stop = ''Central''\<rparr>,
      \<lparr>summary_id = 1, from_city = ''Riga'', to_city = ''Riga'',
        from_stop = ''Any'', to_stop = ''Central''\<rparr>]"
proof -
  let ?r3 = "\<lparr>routes_id = 3, from_city_id = Some 77, to_city_id = Some 9,
        from_stop_id = None, to_stop_id = Some 100\<rparr>"
  let ?r1 = "\<lparr>routes_id = 1, from_city_id = Some 9, to_city_id = Some 9,
        from_stop_id = Some 101, to_stop_id = Some 100\<rparr>"
  let ?row = "(1, ''Riga'', ''Riga'', Some [], ''Central'') :: sql_row"
  have c: "cities sample_db 77 = None" by (simp add: sample_db_def)
  have j1: "join_route sample_db ?r1 = Some ?row"
    by (simp add: sample_db_def join_route_def lookup_def)
  from export_is_inner_join[of sample_db ?r3 ?row]
  have "join_route sample_db ?r3 \<noteq> None \<longleftrightarrow>
     (\<exists>i. from_city_id ?r3 = Some i \<and> cities sample_db i \<noteq> None) \<and>
     (\<exists>j. to_city_id ?r3 = Some j \<and> cities sample_db j \<noteq> None) \<and>
     (\<exists>k. to_stop_id ?r3 = Some k \<and> stops sample_db k \<noteq> None)"
    by blast
  with c have j3: "join_route sample_db ?r3 = None"
    by (cases "join_route sample_db ?r3") simp_all
  from export_is_inner_join[of sample_db ?r1 ?row] j1
  have "from_stop (render ?row) =
        (case lookup (stops sample_db) (from_stop_id ?r1) of
           None \<Rightarrow> ''Any''
         | Some s \<Rightarrow> if stops_title s = [] then ''Any'' else stops_title s)"
    by blast
  then have "from_stop (render ?row) = ''Any''"
    by (simp add: sample_db_def lookup_def)
  moreover have "export_route_summary sample_db =
     [\<lparr>summary_id = 2, from_city = ''Minsk'', to_city = ''Riga'',
        from_stop = ''Any'', to_stop = ''Central''\<rparr>,
      \<lparr>summary_id = 1, from_city = ''Riga'', to_city = ''Riga'',
        from_stop = ''Any'', to_stop = ''Central''\<rparr>]"
    by (simp add: export_route_summary_def sample_rows render_def or_any_def)
  moreover have "routes sample_db = [?r1,
      \<lparr>routes_id = 2, from_city_id = Some 5, to_city_id = Some 9,
        from_stop_id = None, to_stop_id = Some 100\<rparr>, ?r3]"
    by (simp add: sample_db_def)
  ultimately show ?thesis using c j1 j3 by simp
qed

end
